theory Spec2Isabelle
  imports Complex_Main "HOL-Library.Sublist"
begin

section \<open>Tensors and the library operations the notebooks call\<close>

text \<open>
  The notebooks of \<^verbatim>\<open>intro-to-pytorch\<close> (Part 3, training; Part 5, inference and
  validation) build small feed-forward classifiers out of library calls. Floating-point
  numbers are modelled as reals; where the validation pass reads a class off the results of
  \<open>torch.exp\<close>, the exponential is an argument of the model. A Python exception is a
  value of type \<open>error\<close>.
\<close>

datatype error =
    ShapeMismatch  \<comment> \<open>sizes that do not fit: \<open>view\<close>, \<open>nn.Linear\<close>, \<open>topk\<close>, the loss\<close>
  | InvalidLabel   \<comment> \<open>a target outside \<open>[0, number of classes)\<close> given to \<open>nn.NLLLoss\<close>\<close>
  | NoGradient     \<comment> \<open>\<open>backward()\<close> on a loss that was computed without gradient tracking\<close>

text \<open>A tensor is its shape and its elements in row-major order.\<close>

record tensor =
  shape :: "nat list"
  data :: "real list"

definition tensor_ok :: "tensor \<Rightarrow> bool" where
  "tensor_ok t \<longleftrightarrow> length (data t) = prod_list (shape t)"

text \<open>A two-dimensional activation is kept as the list of its rows, one row per example.\<close>

type_synonym matrix = "real list list"

definition rows_of :: "nat \<Rightarrow> nat \<Rightarrow> real list \<Rightarrow> matrix" where
  "rows_of n w d = map (\<lambda>i. take w (drop (i * w) d)) [0..<n]"

text \<open>
  \<^verbatim>\<open>x.view(x.shape[0], -1)\<close>: the first dimension is kept and the others are merged.
  \<open>x.shape[0]\<close> of a tensor without dimensions raises, and so does \<open>-1\<close> when the
  first dimension is 0, where the library cannot infer the missing size. A batch whose
  examples have no elements passes the view, as rows without elements.
\<close>

definition view_flat :: "tensor \<Rightarrow> error + matrix" where
  "view_flat x =
     (case shape x of
        [] \<Rightarrow> Inl ShapeMismatch
      | n # rest \<Rightarrow>
          if n = 0 then Inl ShapeMismatch
          else Inr (rows_of n (prod_list rest) (data x)))"

text \<open>
  One row times a matrix \<open>W\<close> with \<open>m\<close> columns, \<open>(r W)\<^sub>j = \<Sum>\<^sub>k r\<^sub>k W\<^sub>k\<^sub>j\<close>, and
  \<^verbatim>\<open>x @ W + b\<close> with the bias added to every row.
\<close>

definition vec_mat :: "nat \<Rightarrow> real list \<Rightarrow> matrix \<Rightarrow> real list" where
  "vec_mat m r W = map (\<lambda>j. sum_list (map (\<lambda>k. r ! k * W ! k ! j) [0..<length r])) [0..<m]"

definition affine :: "matrix \<Rightarrow> real list \<Rightarrow> matrix \<Rightarrow> matrix" where
  "affine W b x = map (\<lambda>r. map2 (+) (vec_mat (length b) r W) b) x"

text \<open>
  \<^verbatim>\<open>nn.Linear(in_features, out_features)\<close>. The notebook describes the module as the
  transformation \<open>xW + b\<close>; \<open>weight\<close> is that \<open>W\<close>, with \<open>in_features\<close> rows and
  \<open>out_features\<close> columns (the library stores its transpose).
\<close>

record Linear =
  in_features :: nat
  out_features :: nat
  weight :: matrix
  bias :: "real list"

definition Linear_ok :: "Linear \<Rightarrow> bool" where
  "Linear_ok l \<longleftrightarrow>
     length (weight l) = in_features l \<and>
     list_all (\<lambda>r. length r = out_features l) (weight l) \<and>
     length (bias l) = out_features l"

text \<open>Calling the module raises when the last dimension of the input is not \<open>in_features\<close>.\<close>

definition linear_call :: "Linear \<Rightarrow> matrix \<Rightarrow> error + matrix" where
  "linear_call l x =
     (if list_all (\<lambda>r. length r = in_features l) x
      then Inr (affine (weight l) (bias l) x)
      else Inl ShapeMismatch)"

definition relu :: "real \<Rightarrow> real" where
  "relu v = max 0 v"

text \<open>
  \<^verbatim>\<open>F.log_softmax(z, dim=1)\<close>: the library subtracts the maximum of the row before it
  exponentiates.
\<close>

fun row_max :: "real list \<Rightarrow> real" where
  "row_max [] = 0"
| "row_max (v # vs) = foldl max v vs"

definition log_softmax_row :: "real list \<Rightarrow> real list" where
  "log_softmax_row z =
     (let m = row_max z; s = ln (sum_list (map (\<lambda>v. exp (v - m)) z))
      in map (\<lambda>v. v - m - s) z)"

definition log_softmax :: "matrix \<Rightarrow> matrix" where
  "log_softmax x = map log_softmax_row x"

definition bind_e :: "error + 'a \<Rightarrow> ('a \<Rightarrow> error + 'b) \<Rightarrow> error + 'b" where
  "bind_e r f = (case r of Inl e \<Rightarrow> Inl e | Inr v \<Rightarrow> f v)"

section \<open>The classifier of Part 5\<close>

text \<open>
  \<^verbatim>\<open>
  class Classifier(nn.Module):
      def __init__(self):
          self.fc1 = nn.Linear(784, 256); self.fc2 = nn.Linear(256, 128)
          self.fc3 = nn.Linear(128, 64);  self.fc4 = nn.Linear(64, 10)
      def forward(self, x):
          x = x.view(x.shape[0], -1)
          x = F.relu(self.fc1(x)); x = F.relu(self.fc2(x)); x = F.relu(self.fc3(x))
          x = F.log_softmax(self.fc4(x), dim=1)
          return x
  \<close>
\<close>

record Classifier =
  fc1 :: Linear
  fc2 :: Linear
  fc3 :: Linear
  fc4 :: Linear

text \<open>
  What \<open>__init__\<close> establishes, with the widths left open: every layer is well shaped and
  feeds the next one. The notebook's widths are 784, 256, 128, 64 and 10.
\<close>

definition Classifier_ok :: "Classifier \<Rightarrow> bool" where
  "Classifier_ok m \<longleftrightarrow>
     Linear_ok (fc1 m) \<and> Linear_ok (fc2 m) \<and> Linear_ok (fc3 m) \<and> Linear_ok (fc4 m) \<and>
     out_features (fc1 m) = in_features (fc2 m) \<and>
     out_features (fc2 m) = in_features (fc3 m) \<and>
     out_features (fc3 m) = in_features (fc4 m) \<and>
     0 < in_features (fc1 m) \<and> 0 < out_features (fc4 m)"

definition forward :: "Classifier \<Rightarrow> tensor \<Rightarrow> error + matrix" where
  "forward m x =
     bind_e (view_flat x) (\<lambda>x0.
     bind_e (linear_call (fc1 m) x0) (\<lambda>a1.
     bind_e (linear_call (fc2 m) (map (map relu) a1)) (\<lambda>a2.
     bind_e (linear_call (fc3 m) (map (map relu) a2)) (\<lambda>a3.
     bind_e (linear_call (fc4 m) (map (map relu) a3)) (\<lambda>a4.
     Inr (log_softmax a4))))))"


text \<open>
  The second class of Part 5 adds \<^verbatim>\<open>self.dropout = nn.Dropout(p = 0.2)\<close> and applies it
  after each of the three hidden activations:
  \<^verbatim>\<open>
      def forward(self, x):
          x = x.view(x.shape[0], -1)
          x = self.dropout(F.relu(self.fc1(x)))
          x = self.dropout(F.relu(self.fc2(x)))
          x = self.dropout(F.relu(self.fc3(x)))
          x = F.log_softmax(self.fc4(x), dim=1)
          return x
  \<close>
  In training mode the module zeroes each element with probability \<open>p\<close> and divides the
  others by \<open>1 - p\<close>; in evaluation mode it returns its input. The draws of the random
  generator are a sequence \<open>keep\<close> (\<open>True\<close>: the element survives) read from a position
  that every draw advances.
\<close>

fun dropout_row :: "(nat \<Rightarrow> bool) \<Rightarrow> nat \<Rightarrow> real list \<Rightarrow> real list" where
  "dropout_row keep pos [] = []"
| "dropout_row keep pos (v # vs) =
     (if keep pos then v / (1 - 0.2) else 0) # dropout_row keep (Suc pos) vs"

fun dropout_rows :: "(nat \<Rightarrow> bool) \<Rightarrow> nat \<Rightarrow> matrix \<Rightarrow> matrix" where
  "dropout_rows keep pos [] = []"
| "dropout_rows keep pos (r # rs) = dropout_row keep pos r # dropout_rows keep (pos + length r) rs"

definition dropout :: "bool \<Rightarrow> (nat \<Rightarrow> bool) \<Rightarrow> nat \<Rightarrow> matrix \<Rightarrow> matrix \<times> nat" where
  "dropout training keep pos x =
     (if training then (dropout_rows keep pos x, pos + sum_list (map length x)) else (x, pos))"

definition forward_dropout ::
  "Classifier \<Rightarrow> bool \<Rightarrow> (nat \<Rightarrow> bool) \<Rightarrow> nat \<Rightarrow> tensor \<Rightarrow> (error + matrix) \<times> nat" where
  "forward_dropout m training keep pos x =
     (case view_flat x of Inl e \<Rightarrow> (Inl e, pos) | Inr x0 \<Rightarrow>
      case linear_call (fc1 m) x0 of Inl e \<Rightarrow> (Inl e, pos) | Inr a1 \<Rightarrow>
      let (h1, p1) = dropout training keep pos (map (map relu) a1) in
      case linear_call (fc2 m) h1 of Inl e \<Rightarrow> (Inl e, p1) | Inr a2 \<Rightarrow>
      let (h2, p2) = dropout training keep p1 (map (map relu) a2) in
      case linear_call (fc3 m) h2 of Inl e \<Rightarrow> (Inl e, p2) | Inr a3 \<Rightarrow>
      let (h3, p3) = dropout training keep p2 (map (map relu) a3) in
      case linear_call (fc4 m) h3 of Inl e \<Rightarrow> (Inl e, p3) | Inr a4 \<Rightarrow>
      (Inr (log_softmax a4), p3))"

section \<open>The sequential model of Part 3\<close>

text \<open>
  \<^verbatim>\<open>
  model = nn.Sequential(nn.Linear(784, 128), nn.ReLU(),
                        nn.Linear(128, 64), nn.ReLU(),
                        nn.Linear(64, 10), nn.LogSoftmax(dim=1))
  \<close>
  A sequential container passes its input through its modules in order. It is only ever
  called on a flattened, two-dimensional batch.
\<close>

datatype layer = Lin Linear | ReLU | LogSoftmax

fun layer_call :: "layer \<Rightarrow> matrix \<Rightarrow> error + matrix" where
  "layer_call (Lin l) x = linear_call l x"
| "layer_call ReLU x = Inr (map (map relu) x)"
| "layer_call LogSoftmax x = Inr (log_softmax x)"

fun sequential_forward :: "layer list \<Rightarrow> matrix \<Rightarrow> error + matrix" where
  "sequential_forward [] x = Inr x"
| "sequential_forward (l # ls) x = bind_e (layer_call l x) (sequential_forward ls)"

section \<open>Loss, accuracy and the session state\<close>

text \<open>
  \<^verbatim>\<open>criterion = nn.NLLLoss()\<close>: the mean over the batch of \<open>- log_ps[i][labels[i]]\<close>.
  Labels are class indices, the naturals the data sets deliver. The batches that reach the
  loss are never empty, since flattening an empty batch raises first.
\<close>

definition nll_loss :: "matrix \<Rightarrow> nat list \<Rightarrow> error + real" where
  "nll_loss log_ps labels =
     (if length log_ps \<noteq> length labels then Inl ShapeMismatch
      else if \<not> list_all2 (\<lambda>r c. c < length r) log_ps labels then Inl InvalidLabel
      else Inr (sum_list (map2 (\<lambda>r c. - (r ! c)) log_ps labels) / real (length labels)))"

text \<open>
  \<^verbatim>\<open>ps.topk(1, dim = 1)\<close>: for every row the index of a largest element; a row without
  elements raises. The library finds the index by comparing the elements of the row, so the
  index depends only on how they compare: on the rank of every element, the number of
  distinct values of the row below it. Which index is returned for a rank pattern, and so
  which one of several largest elements, is the library's choice \<open>pick\<close>.
\<close>

definition rank_pattern :: "real list \<Rightarrow> nat list" where
  "rank_pattern row = map (\<lambda>v. length (remdups (filter (\<lambda>u. u < v) row))) row"

definition topk1 :: "(nat list \<Rightarrow> nat) \<Rightarrow> real list \<Rightarrow> error + nat" where
  "topk1 pick row = (if row = [] then Inl ShapeMismatch else Inr (pick (rank_pattern row)))"

fun top_classes :: "(nat list \<Rightarrow> nat) \<Rightarrow> matrix \<Rightarrow> error + nat list" where
  "top_classes pick [] = Inr []"
| "top_classes pick (r # rs) =
     (case topk1 pick r of Inl e \<Rightarrow> Inl e
      | Inr c \<Rightarrow> (case top_classes pick rs of Inl e \<Rightarrow> Inl e | Inr cs \<Rightarrow> Inr (c # cs)))"

text \<open>What the library promises of its choice: the index returned holds a largest rank.\<close>

definition proper_pick :: "(nat list \<Rightarrow> nat) \<Rightarrow> bool" where
  "proper_pick pick \<longleftrightarrow>
     (\<forall>p. p \<noteq> [] \<longrightarrow> pick p < length p \<and> list_all (\<lambda>r. r \<le> p ! pick p) p)"

text \<open>One such choice: the first of the largest.\<close>

fun largest_from :: "nat \<Rightarrow> nat \<Rightarrow> nat \<Rightarrow> nat list \<Rightarrow> nat" where
  "largest_from bi bv i [] = bi"
| "largest_from bi bv i (r # rs) =
     (if bv < r then largest_from i r (Suc i) rs else largest_from bi bv (Suc i) rs)"

fun first_largest :: "nat list \<Rightarrow> nat" where
  "first_largest [] = 0"
| "first_largest (r # rs) = largest_from 0 r 1 rs"

text \<open>
  \<^verbatim>\<open>
  ps = torch.exp(log_ps)
  top_p, top_class = ps.topk(1, dim = 1)
  equals = top_class == labels.view(*top_class.shape)
  torch.mean(equals.type(torch.FloatTensor))
  \<close>
  The class is read off numbers that \<open>torch.exp\<close> has computed in floating point, where
  the exponential can give the same result for different arguments; it is the argument
  \<open>lib_exp\<close>. As for the loss, the mean is only ever taken over a batch that is not empty.
\<close>

definition batch_accuracy ::
  "(real \<Rightarrow> real) \<Rightarrow> (nat list \<Rightarrow> nat) \<Rightarrow> matrix \<Rightarrow> nat list \<Rightarrow> error + real" where
  "batch_accuracy lib_exp pick log_ps labels =
     (let ps = map (map lib_exp) log_ps in
      case top_classes pick ps of Inl e \<Rightarrow> Inl e
      | Inr top_cls \<Rightarrow>
          if length labels \<noteq> length top_cls then Inl ShapeMismatch
          else Inr (real (length (filter (\<lambda>(c, l). c = l) (zip top_cls labels)))
                    / real (length top_cls)))"


text \<open>
  An exponential keeps the order of a row when it maps smaller entries to smaller results.
  The exponential of the reals does so on every row. In single precision the exponential
  of every argument below -104 is 0 (results under half the smallest positive number of
  the format, from about -103.97 on, round to 0); \<open>underflowing_exp\<close> is the
  exponential with that one effect of the floating-point format.
\<close>

definition keeps_order :: "(real \<Rightarrow> real) \<Rightarrow> real list \<Rightarrow> bool" where
  "keeps_order f row \<longleftrightarrow> list_all (\<lambda>u. list_all (\<lambda>v. u < v \<longrightarrow> f u < f v) row) row"


text \<open>
  The notebooks keep the model, the optimizer and the library's modes in global variables.
  A session holds them: the model, \<open>model.training\<close>, \<open>torch.is_grad_enabled()\<close>, the
  position of the random generator, the accumulated \<open>.grad\<close> of the parameters (\<open>None\<close>
  before the first backward pass), the optimizer's own state, and the calls made so far.
\<close>

datatype call = ZeroGrad | Forward | Loss | Backward | OptStep | Accumulate

record ('m, 'o) session =
  model :: 'm
  training :: bool
  grad_enabled :: bool
  rng_pos :: nat
  grads :: "real list option"
  opt_state :: 'o
  calls :: "call list"

text \<open>
  What the core does not implement is taken from its collaborators: the draws of the random
  generator, the gradient of the loss that automatic differentiation computes for a model
  and a batch, the update rule of the optimizer, the exponential of \<open>torch.exp\<close> and the
  choice of \<open>topk\<close>.
\<close>

record ('m, 'o) collaborators =
  keep_draws :: "nat \<Rightarrow> bool"
  autodiff :: "'m \<Rightarrow> matrix \<Rightarrow> nat list \<Rightarrow> real list"
  opt_update :: "'o \<Rightarrow> 'm \<Rightarrow> real list \<Rightarrow> 'm \<times> 'o"
  lib_exp :: "real \<Rightarrow> real"
  topk_pick :: "nat list \<Rightarrow> nat"

definition log_call :: "call \<Rightarrow> ('m, 'o) session \<Rightarrow> ('m, 'o) session" where
  "log_call c s = s\<lparr>calls := calls s @ [c]\<rparr>"

text \<open>\<^verbatim>\<open>optimizer.zero_grad()\<close> zeroes every gradient that exists.\<close>

definition zero_grad :: "('m, 'o) session \<Rightarrow> ('m, 'o) session" where
  "zero_grad s = log_call ZeroGrad (s\<lparr>grads := map_option (map (\<lambda>_. 0)) (grads s)\<rparr>)"

text \<open>
  \<^verbatim>\<open>loss.backward()\<close> adds the gradient of the loss to the gradients already there. It
  raises for a loss computed while gradient tracking was off.
\<close>

definition backward ::
  "('m, 'o) collaborators \<Rightarrow> matrix \<Rightarrow> nat list \<Rightarrow> bool \<Rightarrow> ('m, 'o) session
     \<Rightarrow> (error + unit) \<times> ('m, 'o) session" where
  "backward env images labels tracked s =
     (let s1 = log_call Backward s in
      if \<not> tracked then (Inl NoGradient, s1)
      else
        let g = autodiff env (model s) images labels in
        (Inr (), s1\<lparr>grads := Some (case grads s of None \<Rightarrow> g | Some a \<Rightarrow> map2 (+) a g)\<rparr>))"

text \<open>\<^verbatim>\<open>optimizer.step()\<close> updates the parameters from their gradients.\<close>

definition optimizer_step :: "('m, 'o) collaborators \<Rightarrow> ('m, 'o) session \<Rightarrow> ('m, 'o) session" where
  "optimizer_step env s =
     log_call OptStep
       (case grads s of None \<Rightarrow> s
        | Some g \<Rightarrow>
            (case opt_update env (opt_state s) (model s) g of
               (m', o') \<Rightarrow> s\<lparr>model := m', opt_state := o'\<rparr>))"

section \<open>The training loop of Part 3\<close>

text \<open>
  \<^verbatim>\<open>
  for e in range(epochs):
      running_loss = 0
      for images, labels in trainloader:
          images = images.view(images.shape[0], -1)
          optimizer.zero_grad()
          output = model.forward(images)
          loss = criterion(output, labels)
          loss.backward()
          optimizer.step()
          running_loss += loss.item()
  \<close>
  One step takes the batch and the running loss and returns the new running loss, or the
  exception that ended it, together with the session as the step left it.
\<close>

definition train_step ::
  "(layer list, 'o) collaborators \<Rightarrow> tensor \<times> nat list \<Rightarrow> real \<Rightarrow> (layer list, 'o) session
     \<Rightarrow> (error + real) \<times> (layer list, 'o) session" where
  "train_step env batch running_loss s =
     (case view_flat (fst batch) of Inl e \<Rightarrow> (Inl e, s)
      | Inr images \<Rightarrow>
          let s1 = zero_grad s;
              s2 = log_call Forward s1;
              tracked = grad_enabled s2
          in
          case sequential_forward (model s2) images of Inl e \<Rightarrow> (Inl e, s2)
          | Inr output \<Rightarrow>
              let s3 = log_call Loss s2 in
              case nll_loss output (snd batch) of Inl e \<Rightarrow> (Inl e, s3)
              | Inr loss \<Rightarrow>
                  (case backward env images (snd batch) tracked s3 of
                     (Inl e, s4) \<Rightarrow> (Inl e, s4)
                   | (Inr _, s4) \<Rightarrow>
                       let s5 = optimizer_step env s4
                       in (Inr (running_loss + loss), log_call Accumulate s5)))"

fun train_batches ::
  "(layer list, 'o) collaborators \<Rightarrow> (tensor \<times> nat list) list \<Rightarrow> real
     \<Rightarrow> (layer list, 'o) session \<Rightarrow> (error + real) \<times> (layer list, 'o) session" where
  "train_batches env [] running_loss s = (Inr running_loss, s)"
| "train_batches env (b # bs) running_loss s =
     (case train_step env b running_loss s of
        (Inl e, s') \<Rightarrow> (Inl e, s')
      | (Inr running_loss', s') \<Rightarrow> train_batches env bs running_loss' s')"

definition train_epoch ::
  "(layer list, 'o) collaborators \<Rightarrow> (tensor \<times> nat list) list \<Rightarrow> (layer list, 'o) session
     \<Rightarrow> (error + real) \<times> (layer list, 'o) session" where
  "train_epoch env trainloader s = train_batches env trainloader 0 s"

text \<open>The gradient that one batch contributes, for the model as it is when the step starts.\<close>

definition batch_gradient ::
  "(layer list, 'o) collaborators \<Rightarrow> layer list \<Rightarrow> tensor \<times> nat list \<Rightarrow> real list" where
  "batch_gradient env m batch =
     (case view_flat (fst batch) of Inl e \<Rightarrow> []
      | Inr images \<Rightarrow> autodiff env m images (snd batch))"

text \<open>The calls of one complete step, in the order of the loop body.\<close>

definition step_calls :: "call list" where
  "step_calls = [ZeroGrad, Forward, Loss, Backward, OptStep, Accumulate]"

section \<open>The validation pass of Part 5\<close>

text \<open>
  \<^verbatim>\<open>model(images)\<close>, where \<open>model\<close> is an instance of one of the two classes of Part 5.
  The output requires a gradient exactly when gradient tracking is on during the call.
\<close>

datatype net = Plain Classifier | WithDropout Classifier

definition net_call ::
  "(net, 'o) collaborators \<Rightarrow> tensor \<Rightarrow> (net, 'o) session
     \<Rightarrow> (error + matrix \<times> bool) \<times> (net, 'o) session" where
  "net_call env x s =
     (let s1 = log_call Forward s in
      case model s of
        Plain m \<Rightarrow>
          (case forward m x of Inl e \<Rightarrow> (Inl e, s1)
           | Inr out \<Rightarrow> (Inr (out, grad_enabled s), s1))
      | WithDropout m \<Rightarrow>
          (case forward_dropout m (training s) (keep_draws env) (rng_pos s) x of
             (Inl e, p) \<Rightarrow> (Inl e, s1\<lparr>rng_pos := p\<rparr>)
           | (Inr out, p) \<Rightarrow> (Inr (out, grad_enabled s), s1\<lparr>rng_pos := p\<rparr>)))"

text \<open>The parameters of either class.\<close>

definition params_of :: "net \<Rightarrow> Classifier" where
  "params_of n = (case n of Plain m \<Rightarrow> m | WithDropout m \<Rightarrow> m)"

text \<open>
  \<^verbatim>\<open>with torch.no_grad():\<close> turns gradient tracking off, runs its body and sets the mode
  back to what it was, also when the body raises.
\<close>

definition no_grad ::
  "(('m, 'o) session \<Rightarrow> 'a \<times> ('m, 'o) session) \<Rightarrow> ('m, 'o) session \<Rightarrow> 'a \<times> ('m, 'o) session" where
  "no_grad body s =
     (let prev = grad_enabled s in
      case body (s\<lparr>grad_enabled := False\<rparr>) of (r, s') \<Rightarrow> (r, s'\<lparr>grad_enabled := prev\<rparr>))"

text \<open>
  \<^verbatim>\<open>
  test_loss = 0
  accuracy = 0
  with torch.no_grad():
      for images, labels in testloader:
          log_ps = model(images)
          test_loss += criterion(log_ps, labels)
          ps = torch.exp(log_ps)
          top_p, top_class = ps.topk(1, dim = 1)
          equals = top_class == labels.view(*top_class.shape)
          accuracy += torch.mean(equals.type(torch.FloatTensor))
  \<close>
  The running totals are \<open>test_loss\<close>, whether \<open>test_loss\<close> requires a gradient, and
  \<open>accuracy\<close>. The same loop is run for both classes of Part 5.
\<close>

definition validation_batch ::
  "(net, 'o) collaborators \<Rightarrow> tensor \<times> nat list \<Rightarrow> real \<times> bool \<times> real \<Rightarrow> (net, 'o) session
     \<Rightarrow> (error + real \<times> bool \<times> real) \<times> (net, 'o) session" where
  "validation_batch env batch totals s =
     (case net_call env (fst batch) s of
        (Inl e, s1) \<Rightarrow> (Inl e, s1)
      | (Inr (log_ps, tracked), s1) \<Rightarrow>
          let s2 = log_call Loss s1 in
          case nll_loss log_ps (snd batch) of Inl e \<Rightarrow> (Inl e, s2)
          | Inr l \<Rightarrow>
              (case batch_accuracy (lib_exp env) (topk_pick env) log_ps (snd batch) of
                 Inl e \<Rightarrow> (Inl e, s2)
               | Inr a \<Rightarrow>
                   (case totals of (test_loss, test_loss_tracked, accuracy) \<Rightarrow>
                      (Inr (test_loss + l, test_loss_tracked \<or> tracked, accuracy + a), s2))))"

fun validation_batches ::
  "(net, 'o) collaborators \<Rightarrow> (tensor \<times> nat list) list \<Rightarrow> real \<times> bool \<times> real
     \<Rightarrow> (net, 'o) session \<Rightarrow> (error + real \<times> bool \<times> real) \<times> (net, 'o) session" where
  "validation_batches env [] totals s = (Inr totals, s)"
| "validation_batches env (b # bs) totals s =
     (case validation_batch env b totals s of
        (Inl e, s') \<Rightarrow> (Inl e, s')
      | (Inr totals', s') \<Rightarrow> validation_batches env bs totals' s')"

definition validation_pass ::
  "(net, 'o) collaborators \<Rightarrow> (tensor \<times> nat list) list \<Rightarrow> (net, 'o) session
     \<Rightarrow> (error + real \<times> bool \<times> real) \<times> (net, 'o) session" where
  "validation_pass env testloader s =
     no_grad (validation_batches env testloader (0, False, 0)) s"

section \<open>The forward pass as the specification words it\<close>

text \<open>
  For each layer except the last, \<open>output = activation(input @ weight + bias)\<close>; for the
  last layer the affine transform alone, followed by
  \<open>log_softmax(z)\<^sub>i = z\<^sub>i - log (\<Sum>\<^sub>j exp z\<^sub>j)\<close> on every row.
\<close>

definition log_softmax_spec :: "real list \<Rightarrow> real list" where
  "log_softmax_spec z = map (\<lambda>zi. zi - ln (sum_list (map exp z))) z"

fun predict_spec :: "(real \<Rightarrow> real) \<Rightarrow> (matrix \<times> real list) list \<Rightarrow> matrix \<Rightarrow> matrix" where
  "predict_spec act [] x = x"
| "predict_spec act [(W, b)] x = map log_softmax_spec (affine W b x)"
| "predict_spec act ((W, b) # l # ls) x =
     predict_spec act (l # ls) (map (map act) (affine W b x))"

definition layers_of :: "Classifier \<Rightarrow> (matrix \<times> real list) list" where
  "layers_of m =
     [(weight (fc1 m), bias (fc1 m)), (weight (fc2 m), bias (fc2 m)),
      (weight (fc3 m), bias (fc3 m)), (weight (fc4 m), bias (fc4 m))]"

text \<open>The three hidden layers of the classifier, on a flattened batch.\<close>

definition hidden :: "Classifier \<Rightarrow> matrix \<Rightarrow> matrix" where
  "hidden m x0 =
     map (map relu) (affine (weight (fc3 m)) (bias (fc3 m))
       (map (map relu) (affine (weight (fc2 m)) (bias (fc2 m))
         (map (map relu) (affine (weight (fc1 m)) (bias (fc1 m)) x0)))))"

section \<open>A small instance\<close>

text \<open>
  A classifier with one input feature, hidden layers of one unit and two classes, the
  sequential model with the same layers, batches of one and of two examples, and
  collaborators that keep the first \<open>k\<close> units the generator draws, leave the
  parameters as they are, exponentiate as the reals do and pick the first of the largest.
\<close>

definition unit_layer :: Linear where
  "unit_layer = \<lparr>in_features = 1, out_features = 1, weight = [[1]], bias = [0]\<rparr>"

definition out_layer :: Linear where
  "out_layer = \<lparr>in_features = 1, out_features = 2, weight = [[2, 0]], bias = [0, 1]\<rparr>"

definition small_classifier :: Classifier where
  "small_classifier = \<lparr>fc1 = unit_layer, fc2 = unit_layer, fc3 = unit_layer, fc4 = out_layer\<rparr>"

definition small_sequential :: "layer list" where
  "small_sequential = [Lin unit_layer, ReLU, Lin unit_layer, ReLU, Lin out_layer, LogSoftmax]"

definition one_example :: tensor where
  "one_example = \<lparr>shape = [1, 1], data = [1]\<rparr>"

definition small_image :: tensor where
  "small_image = \<lparr>shape = [2, 1, 1, 1], data = [1, 3]\<rparr>"

definition idle :: "nat \<Rightarrow> (net, unit) collaborators" where
  "idle k = \<lparr>keep_draws = (\<lambda>i. i < k), autodiff = (\<lambda>m x y. [0]),
             opt_update = (\<lambda>ost m g. (m, ost)), lib_exp = exp, topk_pick = first_largest\<rparr>"

text \<open>
  For the sequential model, a toy optimizer that moves every bias against the summed
  gradient with learning rate 0.03, and a gradient of one entry.
\<close>

fun nudge :: "real \<Rightarrow> layer \<Rightarrow> layer" where
  "nudge d (Lin l) = Lin (l\<lparr>bias := map (\<lambda>b. b - d) (bias l)\<rparr>)"
| "nudge d ReLU = ReLU"
| "nudge d LogSoftmax = LogSoftmax"

definition toy :: "(layer list, unit) collaborators" where
  "toy = \<lparr>keep_draws = (\<lambda>i. False), autodiff = (\<lambda>m x y. [1]),
          opt_update = (\<lambda>ost m g. (map (nudge (0.03 * sum_list g)) m, ost)),
          lib_exp = exp, topk_pick = first_largest\<rparr>"

text \<open>A session as the notebook starts it, and one that holds a gradient of an earlier batch.\<close>

definition fresh :: "'m \<Rightarrow> ('m, unit) session" where
  "fresh m = \<lparr>model = m, training = True, grad_enabled = True, rng_pos = 0, grads = None,
              opt_state = (), calls = []\<rparr>"

definition stale :: "(layer list, unit) session" where
  "stale = (fresh small_sequential)\<lparr>grads := Some [5]\<rparr>"

section \<open>Shapes\<close>

lemma rows_of_length: "length (rows_of n w d) = n"
  by (simp add: rows_of_def)

lemma rows_of_row_length:
  assumes "length d = n * w" and "r \<in> set (rows_of n w d)"
  shows "length r = w"
proof -
  from assms(2) obtain i where i: "i < n" and r: "r = take w (drop (i * w) d)"
    by (auto simp: rows_of_def)
  from i have "Suc i \<le> n" by simp
  then have "Suc i * w \<le> n * w" by (rule mult_le_mono1)
  then have "w \<le> n * w - i * w" by simp
  with r assms(1) show ?thesis by simp
qed

lemma vec_mat_length: "length (vec_mat m r W) = m"
  by (simp add: vec_mat_def)

lemma affine_length: "length (affine W b x) = length x"
  by (simp add: affine_def)

lemma affine_row_length: "r \<in> set (affine W b x) \<Longrightarrow> length r = length b"
  by (auto simp: affine_def vec_mat_length)

lemma log_softmax_row_length: "length (log_softmax_row z) = length z"
  by (simp add: log_softmax_row_def Let_def)

lemma linear_call_rows:
  assumes "Linear_ok l" and "\<forall>r\<in>set x. length r = in_features l"
  shows "linear_call l x = Inr (affine (weight l) (bias l) x)"
    and "\<forall>r\<in>set (map (map relu) (affine (weight l) (bias l) x)). length r = out_features l"
  using assms by (auto simp: linear_call_def list_all_iff Linear_ok_def affine_def vec_mat_length)

lemma view_flat_rows:
  assumes "tensor_ok x" and "shape x = n # rest" and "0 < n"
  shows "view_flat x = Inr (rows_of n (prod_list rest) (data x))"
    and "\<forall>r\<in>set (rows_of n (prod_list rest) (data x)). length r = prod_list rest"
proof -
  show "view_flat x = Inr (rows_of n (prod_list rest) (data x))"
    using assms by (simp add: view_flat_def)
  have "length (data x) = n * prod_list rest"
    using assms by (simp add: tensor_ok_def)
  then show "\<forall>r\<in>set (rows_of n (prod_list rest) (data x)). length r = prod_list rest"
    by (blast intro: rows_of_row_length)
qed

lemma affine_rows_nonempty: "b \<noteq> [] \<Longrightarrow> \<forall>r\<in>set (affine W b x). r \<noteq> []"
  by (auto simp: affine_def vec_mat_def)

lemma fc4_bias_nonempty: "Classifier_ok m \<Longrightarrow> bias (fc4 m) \<noteq> []"
  by (auto simp: Classifier_ok_def Linear_ok_def)

section \<open>The log-softmax\<close>

lemma sum_exp_pos: "z \<noteq> [] \<Longrightarrow> 0 < sum_list (map (\<lambda>v. exp (f v :: real)) z)"
proof (induction z)
  case Nil
  then show ?case by simp
next
  case (Cons a z)
  have "0 \<le> sum_list (map (\<lambda>v. exp (f v)) z)"
    by (rule sum_list_nonneg) auto
  moreover have "0 < exp (f a)" by simp
  ultimately show ?case by (simp add: add_pos_nonneg)
qed

lemma sum_exp_shift:
  "sum_list (map (\<lambda>v. exp (v - m)) z) = exp (- m) * sum_list (map exp (z :: real list))"
  by (induction z) (simp_all add: exp_diff exp_minus field_simps)

lemma log_softmax_row_plain:
  assumes "z \<noteq> []"
  shows "log_softmax_row z = log_softmax_spec z"
proof -
  have pos: "0 < sum_list (map exp z)"
    using sum_exp_pos [OF assms, of "\<lambda>v. v"] by simp
  have "ln (sum_list (map (\<lambda>v. exp (v - row_max z)) z)) = - row_max z + ln (sum_list (map exp z))"
    using pos by (simp add: sum_exp_shift ln_mult)
  then show ?thesis
    by (simp add: log_softmax_row_def log_softmax_spec_def Let_def)
qed

lemma exp_log_softmax_row_sum:
  assumes "z \<noteq> []"
  shows "sum_list (map exp (log_softmax_row z)) = 1"
proof -
  have pos: "0 < sum_list (map exp z)"
    using sum_exp_pos [OF assms, of "\<lambda>v. v"] by simp
  have "sum_list (map exp (log_softmax_row z))
          = sum_list (map (\<lambda>v. exp (v - ln (sum_list (map exp z)))) z)"
    by (simp add: log_softmax_row_plain [OF assms] log_softmax_spec_def comp_def)
  also have "\<dots> = exp (- ln (sum_list (map exp z))) * sum_list (map exp z)"
    by (rule sum_exp_shift)
  also have "\<dots> = 1"
    using pos by (simp add: exp_minus exp_ln)
  finally show ?thesis .
qed

lemma log_softmax_plain:
  assumes "\<forall>r\<in>set a. r \<noteq> []"
  shows "log_softmax a = map log_softmax_spec a"
  using assms by (simp add: log_softmax_def log_softmax_row_plain)

lemma log_softmax_row_gap:
  "log_softmax_row [a, b] ! 0 - log_softmax_row [a, b] ! 1 = a - b"
  by (simp add: log_softmax_row_def Let_def)

lemma log_softmax_row_differ:
  assumes "a - b \<noteq> c - d"
  shows "log_softmax_row [a, b] \<noteq> log_softmax_row [c, d]"
proof
  assume "log_softmax_row [a, b] = log_softmax_row [c, d]"
  then have "log_softmax_row [a, b] ! 0 - log_softmax_row [a, b] ! 1
             = log_softmax_row [c, d] ! 0 - log_softmax_row [c, d] ! 1"
    by simp
  with assms show False by (simp only: log_softmax_row_gap)
qed

section \<open>What the forward passes compute\<close>

lemma forward_value:
  assumes ok: "Classifier_ok m" and x: "tensor_ok x" "shape x = n # rest" "0 < n"
    and w: "prod_list rest = in_features (fc1 m)"
  shows "forward m x =
           Inr (log_softmax (affine (weight (fc4 m)) (bias (fc4 m))
                  (hidden m (rows_of n (in_features (fc1 m)) (data x)))))"
proof -
  let ?x0 = "rows_of n (in_features (fc1 m)) (data x)"
  let ?a1 = "affine (weight (fc1 m)) (bias (fc1 m)) ?x0"
  let ?a2 = "affine (weight (fc2 m)) (bias (fc2 m)) (map (map relu) ?a1)"
  let ?a3 = "affine (weight (fc3 m)) (bias (fc3 m)) (map (map relu) ?a2)"
  from ok have l: "Linear_ok (fc1 m)" "Linear_ok (fc2 m)" "Linear_ok (fc3 m)" "Linear_ok (fc4 m)"
    and c: "out_features (fc1 m) = in_features (fc2 m)" "out_features (fc2 m) = in_features (fc3 m)"
      "out_features (fc3 m) = in_features (fc4 m)" and p: "0 < in_features (fc1 m)"
    by (simp_all add: Classifier_ok_def)
  from view_flat_rows [OF x] w
  have v: "view_flat x = Inr ?x0" and r0: "\<forall>r\<in>set ?x0. length r = in_features (fc1 m)"
    by simp_all
  from linear_call_rows [OF l(1) r0] c
  have c1: "linear_call (fc1 m) ?x0 = Inr ?a1"
    and r1: "\<forall>r\<in>set (map (map relu) ?a1). length r = in_features (fc2 m)"
    by simp_all
  from linear_call_rows [OF l(2) r1] c
  have c2: "linear_call (fc2 m) (map (map relu) ?a1) = Inr ?a2"
    and r2: "\<forall>r\<in>set (map (map relu) ?a2). length r = in_features (fc3 m)"
    by simp_all
  from linear_call_rows [OF l(3) r2] c
  have c3: "linear_call (fc3 m) (map (map relu) ?a2) = Inr ?a3"
    and r3: "\<forall>r\<in>set (map (map relu) ?a3). length r = in_features (fc4 m)"
    by simp_all
  from linear_call_rows [OF l(4) r3]
  have c4: "linear_call (fc4 m) (map (map relu) ?a3)
              = Inr (affine (weight (fc4 m)) (bias (fc4 m)) (map (map relu) ?a3))"
    by simp
  show ?thesis
    by (simp add: forward_def bind_e_def v c1 c2 c3 c4 hidden_def)
qed


lemma dropout_eval: "dropout False keep pos x = (x, pos)"
  by (simp add: dropout_def)

lemma forward_dropout_eval: "forward_dropout m False keep pos x = (forward m x, pos)"
  by (simp add: forward_dropout_def forward_def bind_e_def dropout_eval split: sum.splits)

section \<open>The small instance, evaluated\<close>

lemma small_classifier_ok: "Classifier_ok small_classifier"
  by (simp add: Classifier_ok_def Linear_ok_def small_classifier_def unit_layer_def out_layer_def)

lemma one_example_ok: "tensor_ok one_example"
  by (simp add: tensor_ok_def one_example_def)

lemma small_in_features: "in_features (fc1 small_classifier) = 1"
  by (simp add: small_classifier_def unit_layer_def)

lemmas small_defs = small_classifier_def unit_layer_def out_layer_def one_example_def

lemmas forward_defs = forward_def forward_dropout_def dropout_def bind_e_def view_flat_def
  rows_of_def linear_call_def affine_def vec_mat_def relu_def log_softmax_def

lemma upt_0_2: "[0..<2] = [0, 1]"
  by (simp add: upt_rec)

lemma small_forward: "forward small_classifier one_example = Inr [log_softmax_row [2, 1]]"
  by (simp add: forward_defs small_defs upt_0_2)

lemma small_dropout_kept:
  "forward_dropout small_classifier True (\<lambda>i. i < 3) 0 one_example
     = (Inr [log_softmax_row [125 / 32, 1]], 3)"
  by (simp add: forward_defs small_defs upt_0_2)

lemma small_dropout_dropped:
  "forward_dropout small_classifier True (\<lambda>i. i < k) (k + j) one_example
     = (Inr [log_softmax_row [0, 1]], k + j + 3)"
  by (simp add: forward_defs small_defs upt_0_2)

lemma idle_fields:
  "keep_draws (idle k) = (\<lambda>i. i < k)" "lib_exp (idle k) = exp" "topk_pick (idle k) = first_largest"
  by (simp_all add: idle_def)

lemma accuracy_first: "batch_accuracy exp first_largest [log_softmax_row [2, 1]] [0] = Inr 1"
  by (simp add: batch_accuracy_def topk1_def rank_pattern_def log_softmax_row_def Let_def)

lemma accuracy_second: "batch_accuracy exp first_largest [log_softmax_row [0, 1]] [0] = Inr 0"
  by (simp add: batch_accuracy_def topk1_def rank_pattern_def log_softmax_row_def Let_def)

lemma nll_one: "nll_loss [log_softmax_row [a, b]] [0] = Inr (- (log_softmax_row [a, b] ! 0))"
  by (simp add: nll_loss_def log_softmax_row_length)

lemma nll_bad: "nll_loss [log_softmax_row [a, b]] [7] = Inl InvalidLabel"
  by (simp add: nll_loss_def log_softmax_row_length)

lemma small_view: "view_flat one_example = Inr [[1]]"
  by (simp add: view_flat_def rows_of_def one_example_def)

lemma small_sequential_forward:
  "sequential_forward small_sequential [[1]] = Inr [log_softmax_row [2, 1]]"
  by (simp add: small_sequential_def bind_e_def linear_call_def affine_def vec_mat_def relu_def
      log_softmax_def unit_layer_def out_layer_def upt_0_2)

lemma small_train_step:
  "fst (train_step toy (one_example, [0]) 0 stale) = Inr (- (log_softmax_row [2, 1] ! 0))"
  by (simp add: train_step_def small_view small_sequential_forward nll_one zero_grad_def
      backward_def optimizer_step_def log_call_def fresh_def stale_def toy_def Let_def)

lemma small_batch_gradient: "batch_gradient toy small_sequential (one_example, [0]) = [1]"
  by (simp add: batch_gradient_def small_view toy_def)

lemma stale_fields:
  "model stale = small_sequential" "grads stale = Some [5]" "calls stale = []"
  "opt_state stale = ()"
  by (simp_all add: stale_def fresh_def)

lemma toy_update: "fst (opt_update toy ost m [1]) = map (nudge 0.03) m"
  by (simp add: toy_def)

section \<open>The forward pass\<close>

text \<open>
  Claim C1. On a two-dimensional batch whose rows have \<open>in_features\<close> of the first layer
  as their length, the forward pass of the classifier returns what the specification
  describes: \<open>relu (input @ weight + bias)\<close> for the first three layers, and for the last
  layer the affine transform alone followed by
  \<open>log_softmax(z)\<^sub>i = z\<^sub>i - log (\<Sum>\<^sub>j exp z\<^sub>j)\<close> on every row. The batch has at
  least one example.
\<close>

theorem predict_layers:
  assumes "Classifier_ok m" and "tensor_ok x" and "shape x = [n, in_features (fc1 m)]" and "0 < n"
  shows "forward m x =
           Inr (predict_spec relu (layers_of m) (rows_of n (in_features (fc1 m)) (data x)))"
proof -
  have "forward m x =
          Inr (log_softmax (affine (weight (fc4 m)) (bias (fc4 m))
                 (hidden m (rows_of n (in_features (fc1 m)) (data x)))))"
    using assms forward_value [of m x n "[in_features (fc1 m)]"] by simp
  moreover have "\<forall>r\<in>set (affine (weight (fc4 m)) (bias (fc4 m))
                   (hidden m (rows_of n (in_features (fc1 m)) (data x)))). r \<noteq> []"
    using assms(1) by (intro affine_rows_nonempty fc4_bias_nonempty)
  ultimately show ?thesis
    by (simp add: log_softmax_plain layers_of_def hidden_def)
qed

theorem predict_layers_witness:
  "Classifier_ok small_classifier \<and> tensor_ok one_example \<and>
   shape one_example = [1, in_features (fc1 small_classifier)] \<and> (0::nat) < 1 \<and>
   forward small_classifier one_example =
     Inr (predict_spec relu (layers_of small_classifier)
            (rows_of 1 (in_features (fc1 small_classifier)) (data one_example)))"
proof -
  have s: "shape one_example = [1, in_features (fc1 small_classifier)]"
    by (simp add: one_example_def small_in_features)
  have p: "(0::nat) < 1" by simp
  show ?thesis
    using predict_layers [OF small_classifier_ok one_example_ok s p]
      small_classifier_ok one_example_ok s by simp
qed

text \<open>
  Claim C2. For every valid batch the forward pass returns one row per example, and the
  exponentials of every row sum to one: each row is a log-probability distribution over the
  classes.
\<close>

theorem predict_rows_sum_to_one:
  assumes "Classifier_ok m" and "tensor_ok x" and "shape x = n # rest" and "0 < n"
    and "prod_list rest = in_features (fc1 m)"
  shows "\<exists>out. forward m x = Inr out \<and> length out = n \<and>
           (\<forall>row\<in>set out. sum_list (map exp row) = 1)"
proof -
  let ?a4 = "affine (weight (fc4 m)) (bias (fc4 m))
               (hidden m (rows_of n (in_features (fc1 m)) (data x)))"
  have f: "forward m x = Inr (log_softmax ?a4)"
    using assms by (rule forward_value)
  have ne: "\<forall>r\<in>set ?a4. r \<noteq> []"
    using assms(1) by (intro affine_rows_nonempty fc4_bias_nonempty)
  have "length (log_softmax ?a4) = n"
    by (simp add: log_softmax_def affine_length hidden_def rows_of_length)
  moreover have "\<forall>row\<in>set (log_softmax ?a4). sum_list (map exp row) = 1"
    using ne by (auto simp: log_softmax_def exp_log_softmax_row_sum)
  ultimately show ?thesis using f by simp
qed

theorem predict_rows_sum_to_one_witness:
  "Classifier_ok small_classifier \<and> tensor_ok one_example \<and> shape one_example = [1, 1] \<and>
   (0::nat) < 1 \<and> prod_list [1] = in_features (fc1 small_classifier) \<and>
   (\<exists>out. forward small_classifier one_example = Inr out \<and> length out = 1 \<and>
      (\<forall>row\<in>set out. sum_list (map exp row) = 1))"
proof -
  have s: "shape one_example = [1, 1]"
    by (simp add: one_example_def)
  have p: "(0::nat) < 1" by simp
  have w: "prod_list [1] = in_features (fc1 small_classifier)"
    by (simp add: small_in_features)
  show ?thesis
    using predict_rows_sum_to_one [OF small_classifier_ok one_example_ok s p w]
      small_classifier_ok one_example_ok s w by simp
qed

text \<open>
  Claim C10. The forward pass flattens its input itself: a batch of any number of
  dimensions whose trailing sizes multiply to \<open>in_features\<close> of the first layer is
  accepted, the output has one row per example and one column per class, and it is the
  output for the same elements given as a two-dimensional batch.
\<close>

theorem forward_accepts_unflattened:
  assumes "Classifier_ok m" and "tensor_ok x" and "shape x = n # rest" and "0 < n"
    and "prod_list rest = in_features (fc1 m)"
  shows "\<exists>out. forward m x = Inr out \<and> length out = n \<and>
           (\<forall>row\<in>set out. length row = out_features (fc4 m)) \<and>
           forward m (x\<lparr>shape := [n, in_features (fc1 m)]\<rparr>) = Inr out"
proof -
  let ?a4 = "affine (weight (fc4 m)) (bias (fc4 m))
               (hidden m (rows_of n (in_features (fc1 m)) (data x)))"
  have f: "forward m x = Inr (log_softmax ?a4)"
    using assms by (rule forward_value)
  have "tensor_ok (x\<lparr>shape := [n, in_features (fc1 m)]\<rparr>)"
    using assms by (simp add: tensor_ok_def)
  then have g: "forward m (x\<lparr>shape := [n, in_features (fc1 m)]\<rparr>) = Inr (log_softmax ?a4)"
    using assms forward_value [of m "x\<lparr>shape := [n, in_features (fc1 m)]\<rparr>" n "[in_features (fc1 m)]"]
    by simp
  have "length (log_softmax ?a4) = n"
    by (simp add: log_softmax_def affine_length hidden_def rows_of_length)
  moreover have "\<forall>row\<in>set (log_softmax ?a4). length row = out_features (fc4 m)"
    using assms(1)
    by (auto simp: log_softmax_def log_softmax_row_length Classifier_ok_def Linear_ok_def
             dest: affine_row_length)
  ultimately show ?thesis using f g by simp
qed

theorem forward_accepts_unflattened_witness:
  "Classifier_ok small_classifier \<and> tensor_ok small_image \<and> shape small_image = [2, 1, 1, 1] \<and>
   (0::nat) < 2 \<and> prod_list [1, 1, 1] = in_features (fc1 small_classifier) \<and>
   (\<exists>out. forward small_classifier small_image = Inr out \<and> length out = 2 \<and>
      (\<forall>row\<in>set out. length row = out_features (fc4 small_classifier)) \<and>
      forward small_classifier (small_image\<lparr>shape := [2, in_features (fc1 small_classifier)]\<rparr>) = Inr out)"
proof -
  have t: "tensor_ok small_image"
    by (simp add: tensor_ok_def small_image_def)
  have s: "shape small_image = [2, 1, 1, 1]"
    by (simp add: small_image_def)
  have p: "(0::nat) < 2" by simp
  have w: "prod_list [1, 1, 1] = in_features (fc1 small_classifier)"
    by (simp add: small_in_features)
  show ?thesis
    using forward_accepts_unflattened [OF small_classifier_ok t s p w]
      small_classifier_ok t s w by simp
qed

section \<open>Exponentials that keep the order of a row\<close>

text \<open>The first of the largest is a choice the library could make.\<close>

lemma largest_from_holds_largest:
  assumes "length xs = i" and "bi < i" and "xs ! bi = bv" and "\<forall>x\<in>set xs. x \<le> bv"
  shows "largest_from bi bv i rs < length (xs @ rs) \<and>
         (\<forall>x\<in>set (xs @ rs). x \<le> (xs @ rs) ! largest_from bi bv i rs)"
  using assms
proof (induction rs arbitrary: xs bi bv i)
  case Nil
  then show ?case by auto
next
  case (Cons r rs)
  show ?case
  proof (cases "bv < r")
    case True
    have "largest_from i r (Suc i) rs < length ((xs @ [r]) @ rs) \<and>
         (\<forall>x\<in>set ((xs @ [r]) @ rs). x \<le> ((xs @ [r]) @ rs) ! largest_from i r (Suc i) rs)"
      using Cons.prems True by (intro Cons.IH) (auto simp: nth_append)
    with True show ?thesis by simp
  next
    case False
    have "largest_from bi bv (Suc i) rs < length ((xs @ [r]) @ rs) \<and>
         (\<forall>x\<in>set ((xs @ [r]) @ rs). x \<le> ((xs @ [r]) @ rs) ! largest_from bi bv (Suc i) rs)"
      using Cons.prems False by (intro Cons.IH) (auto simp: nth_append)
    with False show ?thesis by simp
  qed
qed

lemma first_largest_proper: "proper_pick first_largest"
proof -
  have "first_largest p < length p \<and> list_all (\<lambda>r. r \<le> p ! first_largest p) p" if "p \<noteq> []" for p
  proof -
    from that obtain r rs where p: "p = r # rs" by (cases p) auto
    from largest_from_holds_largest [of "[r]" 1 0 r rs] p show ?thesis
      by (simp add: list_all_iff)
  qed
  then show ?thesis by (simp add: proper_pick_def)
qed







lemma keeps_order_exp: "keeps_order exp row"
  by (simp add: keeps_order_def list_all_iff)




section \<open>Batches of one example\<close>






section \<open>Predicted classes\<close>




section \<open>The training loop\<close>

lemma zero_then_add: "length a = length g \<Longrightarrow> map2 (+) (map (\<lambda>_. 0) a) g = (g :: real list)"
  by (induction a g rule: list_induct2) simp_all

lemma train_step_calls:
  assumes "train_step env b rl s = (r, s')"
  shows "prefix (calls s') (calls s @ step_calls)"
    and "r = Inr rl' \<Longrightarrow> calls s' = calls s @ step_calls"
  using assms
  by (auto simp: train_step_def zero_grad_def backward_def optimizer_step_def log_call_def
        step_calls_def Let_def prefix_def
      split: sum.splits prod.splits option.splits if_splits)

lemma train_step_result:
  assumes "train_step env b rl s = (Inr rl', s')"
  shows "\<exists>images output loss g.
           view_flat (fst b) = Inr images \<and>
           sequential_forward (model s) images = Inr output \<and>
           nll_loss output (snd b) = Inr loss \<and>
           rl' = rl + loss \<and> grad_enabled s \<and>
           g = (case grads s of None \<Rightarrow> batch_gradient env (model s) b
                | Some a \<Rightarrow> map2 (+) (map (\<lambda>_. 0) a) (batch_gradient env (model s) b)) \<and>
           grads s' = Some g \<and>
           (model s', opt_state s') = opt_update env (opt_state s) (model s) g"
  using assms
  by (auto simp: train_step_def zero_grad_def backward_def optimizer_step_def log_call_def
        batch_gradient_def Let_def
      split: sum.splits prod.splits option.splits if_splits)

lemma train_step_error_model:
  assumes "train_step env b rl s = (Inl e, s')"
  shows "model s' = model s"
  using assms
  by (auto simp: train_step_def zero_grad_def backward_def optimizer_step_def log_call_def Let_def
      split: sum.splits prod.splits option.splits if_splits)

lemma train_batches_calls:
  assumes "train_batches env bs rl s = (r, s')"
  shows "prefix (calls s') (calls s @ concat (replicate (length bs) step_calls)) \<and>
         (\<forall>rl'. r = Inr rl' \<longrightarrow> calls s' = calls s @ concat (replicate (length bs) step_calls))"
  using assms
proof (induction bs arbitrary: rl s)
  case Nil
  then show ?case by simp
next
  case (Cons b bs)
  obtain r1 s1 where b: "train_step env b rl s = (r1, s1)"
    by (cases "train_step env b rl s")
  show ?case
  proof (cases r1)
    case (Inl e)
    with Cons.prems b have "r = Inl e" "s' = s1" by simp_all
    moreover have "prefix (calls s1) (calls s @ step_calls)"
      by (rule train_step_calls(1) [OF b])
    then have "prefix (calls s1) ((calls s @ step_calls) @ concat (replicate (length bs) step_calls))"
      by (rule prefix_prefix)
    ultimately show ?thesis by simp
  next
    case (Inr rl1)
    with b have c: "calls s1 = calls s @ step_calls"
      by (simp add: train_step_calls(2))
    from Cons.prems b Inr have "train_batches env bs rl1 s1 = (r, s')" by simp
    from Cons.IH [OF this] c show ?thesis by simp
  qed
qed

text \<open>
  Claim C3. The calls of an epoch are a prefix of the sequence
  \<open>zero_grad, forward, loss, backward, step, accumulate\<close> repeated once per batch, and
  the whole of it when the epoch completes. Since the gradients are reset before the
  backward pass, a completed step leaves the gradient of its own batch alone in \<open>.grad\<close>,
  and the parameters are the optimizer's update of the old parameters by that gradient.
\<close>

theorem train_epoch_call_order:
  "prefix (calls (snd (train_epoch env trainloader s)))
     (calls s @ concat (replicate (length trainloader) step_calls)) \<and>
   (\<forall>running_loss. fst (train_epoch env trainloader s) = Inr running_loss \<longrightarrow>
      calls (snd (train_epoch env trainloader s))
        = calls s @ concat (replicate (length trainloader) step_calls)) \<and>
   (\<forall>running_loss. fst (train_step env batch so_far s) = Inr running_loss \<longrightarrow>
      (\<forall>a. grads s = Some a \<longrightarrow> length a = length (batch_gradient env (model s) batch)) \<longrightarrow>
      grads (snd (train_step env batch so_far s)) = Some (batch_gradient env (model s) batch) \<and>
      model (snd (train_step env batch so_far s))
        = fst (opt_update env (opt_state s) (model s) (batch_gradient env (model s) batch)))"
proof -
  obtain r s' where e: "train_batches env trainloader 0 s = (r, s')"
    by (cases "train_batches env trainloader 0 s")
  from train_batches_calls [OF e] e
  have "prefix (calls (snd (train_epoch env trainloader s)))
          (calls s @ concat (replicate (length trainloader) step_calls))"
    and "\<forall>running_loss. fst (train_epoch env trainloader s) = Inr running_loss \<longrightarrow>
           calls (snd (train_epoch env trainloader s))
             = calls s @ concat (replicate (length trainloader) step_calls)"
    by (simp_all add: train_epoch_def)
  moreover have "grads (snd (train_step env batch so_far s)) = Some (batch_gradient env (model s) batch) \<and>
      model (snd (train_step env batch so_far s))
        = fst (opt_update env (opt_state s) (model s) (batch_gradient env (model s) batch))"
    if ok: "fst (train_step env batch so_far s) = Inr running_loss"
      and len: "\<forall>a. grads s = Some a \<longrightarrow> length a = length (batch_gradient env (model s) batch)"
    for running_loss
  proof -
    obtain s1 where t: "train_step env batch so_far s = (Inr running_loss, s1)"
      using ok by (cases "train_step env batch so_far s") simp
    from train_step_result [OF t] obtain g where
      g: "g = (case grads s of None \<Rightarrow> batch_gradient env (model s) batch
               | Some a \<Rightarrow> map2 (+) (map (\<lambda>_. 0) a) (batch_gradient env (model s) batch))"
      and s1: "grads s1 = Some g" "(model s1, opt_state s1) = opt_update env (opt_state s) (model s) g"
      by blast
    from g len have "g = batch_gradient env (model s) batch"
      by (cases "grads s") (simp_all add: zero_then_add)
    with s1 t show ?thesis
      by (metis fst_conv snd_conv)
  qed
  ultimately show ?thesis by blast
qed

theorem train_epoch_call_order_witness:
  "(\<exists>running_loss. fst (train_epoch toy [(one_example, [0])] stale) = Inr running_loss) \<and>
   (\<exists>running_loss. fst (train_step toy (one_example, [0]) 0 stale) = Inr running_loss) \<and>
   grads stale = Some [5] \<and>
   calls (snd (train_epoch toy [(one_example, [0])] stale)) = step_calls \<and>
   grads (snd (train_step toy (one_example, [0]) 0 stale)) = Some [1] \<and>
   model (snd (train_step toy (one_example, [0]) 0 stale)) = map (nudge 0.03) small_sequential"
proof -
  note t = small_train_step
  then obtain s1 where
    "train_step toy (one_example, [0]) 0 stale = (Inr (- (log_softmax_row [2, 1] ! 0)), s1)"
    by (cases "train_step toy (one_example, [0]) 0 stale") simp
  then have e: "fst (train_epoch toy [(one_example, [0])] stale)
                  = Inr (- (log_softmax_row [2, 1] ! 0))"
    by (simp add: train_epoch_def)
  have n: "\<forall>a. grads stale = Some a
             \<longrightarrow> length a = length (batch_gradient toy (model stale) (one_example, [0]))"
    by (simp add: stale_fields small_batch_gradient)
  note order = train_epoch_call_order [of toy "[(one_example, [0])]" stale "(one_example, [0])" 0]
  from order e
  have "calls (snd (train_epoch toy [(one_example, [0])] stale))
          = calls stale @ concat (replicate (length [(one_example, [0::nat])]) step_calls)"
    by blast
  then have c: "calls (snd (train_epoch toy [(one_example, [0])] stale)) = step_calls"
    by (simp add: stale_fields)
  from order t n
  have "grads (snd (train_step toy (one_example, [0]) 0 stale))
          = Some (batch_gradient toy (model stale) (one_example, [0])) \<and>
        model (snd (train_step toy (one_example, [0]) 0 stale))
          = fst (opt_update toy (opt_state stale) (model stale)
                   (batch_gradient toy (model stale) (one_example, [0])))"
    by blast
  then have m: "grads (snd (train_step toy (one_example, [0]) 0 stale)) = Some [1]"
    "model (snd (train_step toy (one_example, [0]) 0 stale)) = map (nudge 0.03) small_sequential"
    by (simp_all add: stale_fields small_batch_gradient toy_update)
  from t e c m stale_fields(2) show ?thesis by simp
qed

section \<open>The validation pass\<close>

lemma net_call_frame:
  assumes "net_call env x s = (r, s')"
  shows "model s' = model s" and "training s' = training s" and "grad_enabled s' = grad_enabled s"
    and "grads s' = grads s" and "opt_state s' = opt_state s"
  using assms
  by (auto simp: net_call_def log_call_def Let_def split: net.splits sum.splits prod.splits)

lemma net_call_tracked:
  assumes "net_call env x s = (Inr (out, tracked), s')"
  shows "tracked = grad_enabled s"
  using assms
  by (auto simp: net_call_def log_call_def Let_def split: net.splits sum.splits prod.splits)

lemma validation_batch_frame:
  assumes "validation_batch env b totals s = (r, s')"
  shows "model s' = model s" and "training s' = training s" and "grad_enabled s' = grad_enabled s"
    and "grads s' = grads s" and "opt_state s' = opt_state s"
  using assms
  by (auto simp: validation_batch_def log_call_def Let_def
           split: sum.splits prod.splits dest: net_call_frame)

lemma validation_batch_tracked:
  assumes "validation_batch env b (t0, tr, a0) s = (Inr (t2, tr2, a2), s')"
  shows "tr2 = (tr \<or> grad_enabled s)"
  using assms
  by (auto simp: validation_batch_def log_call_def Let_def
           split: sum.splits prod.splits dest: net_call_tracked)

lemma validation_batches_frame:
  assumes "validation_batches env bs totals s = (r, s')"
  shows "model s' = model s \<and> training s' = training s \<and> grad_enabled s' = grad_enabled s \<and>
         grads s' = grads s \<and> opt_state s' = opt_state s"
  using assms
proof (induction bs arbitrary: totals s)
  case Nil
  then show ?case by simp
next
  case (Cons b bs)
  obtain r1 s1 where b: "validation_batch env b totals s = (r1, s1)"
    by (cases "validation_batch env b totals s")
  note f = validation_batch_frame [OF b]
  show ?case
  proof (cases r1)
    case (Inl e)
    with Cons.prems b f show ?thesis by simp
  next
    case (Inr totals')
    with Cons.prems b have "validation_batches env bs totals' s1 = (r, s')" by simp
    from Cons.IH [OF this] f show ?thesis by simp
  qed
qed

lemma validation_batches_untracked:
  assumes "validation_batches env bs (t0, tr, a0) s = (Inr (t2, tr2, a2), s')"
    and "\<not> grad_enabled s" and "\<not> tr"
  shows "\<not> tr2"
  using assms
proof (induction bs arbitrary: t0 tr a0 s)
  case Nil
  then show ?case by simp
next
  case (Cons b bs)
  obtain r1 s1 where b: "validation_batch env b (t0, tr, a0) s = (r1, s1)"
    by (cases "validation_batch env b (t0, tr, a0) s")
  show ?case
  proof (cases r1)
    case (Inl e)
    with Cons.prems b show ?thesis by simp
  next
    case (Inr totals')
    obtain t1 tr1 a1 where t: "totals' = (t1, tr1, a1)"
      by (cases totals')
    from b Inr t have b': "validation_batch env b (t0, tr, a0) s = (Inr (t1, tr1, a1), s1)"
      by simp
    from validation_batch_tracked [OF b'] Cons.prems have "\<not> tr1" by simp
    moreover from validation_batch_frame(3) [OF b] Cons.prems have "\<not> grad_enabled s1" by simp
    moreover from Cons.prems(1) b Inr t
    have "validation_batches env bs (t1, tr1, a1) s1 = (Inr (t2, tr2, a2), s')" by simp
    ultimately show ?thesis using Cons.IH by blast
  qed
qed

text \<open>
  Claim C8. The validation pass leaves gradient tracking in the mode it found it, whether
  the pass completes or raises on some batch, and every forward pass inside it runs
  without gradient tracking: the accumulated test loss does not require a gradient.
\<close>

theorem validation_pass_restores_grad_mode:
  "grad_enabled (snd (validation_pass env testloader s)) = grad_enabled s \<and>
   (\<forall>test_loss tracked accuracy.
      fst (validation_pass env testloader s) = Inr (test_loss, tracked, accuracy) \<longrightarrow> \<not> tracked)"
proof -
  obtain r s' where v: "validation_batches env testloader (0, False, 0) (s\<lparr>grad_enabled := False\<rparr>) = (r, s')"
    by (cases "validation_batches env testloader (0, False, 0) (s\<lparr>grad_enabled := False\<rparr>)")
  then have p: "validation_pass env testloader s = (r, s'\<lparr>grad_enabled := grad_enabled s\<rparr>)"
    by (simp add: validation_pass_def no_grad_def)
  have "\<not> tracked" if "r = Inr (test_loss, tracked, accuracy)" for test_loss tracked accuracy
    using validation_batches_untracked [of env testloader 0 False 0 "s\<lparr>grad_enabled := False\<rparr>"
        test_loss tracked accuracy s'] v that by simp
  with p show ?thesis by auto
qed

theorem validation_pass_restores_grad_mode_witness:
  "(\<exists>test_loss accuracy.
      fst (validation_pass (idle 0) [(one_example, [0])] (fresh (Plain small_classifier)))
        = Inr (test_loss, False, accuracy)) \<and>
   fst (validation_pass (idle 0) [(one_example, [7])] (fresh (Plain small_classifier)))
     = Inl InvalidLabel \<and>
   grad_enabled (snd (validation_pass (idle 0) [(one_example, [7])] (fresh (Plain small_classifier))))"
proof -
  have a: "\<exists>test_loss tracked accuracy.
      fst (validation_pass (idle 0) [(one_example, [0])] (fresh (Plain small_classifier)))
        = Inr (test_loss, tracked, accuracy)"
    by (auto simp: validation_pass_def no_grad_def validation_batch_def net_call_def fresh_def
        log_call_def Let_def small_forward nll_one accuracy_first idle_fields)
  have b: "fst (validation_pass (idle 0) [(one_example, [7])] (fresh (Plain small_classifier)))
     = Inl InvalidLabel"
    by (simp add: validation_pass_def no_grad_def validation_batch_def net_call_def fresh_def
        log_call_def Let_def small_forward nll_bad)
  from a obtain l t c where
    r: "fst (validation_pass (idle 0) [(one_example, [0])] (fresh (Plain small_classifier)))
          = Inr (l, t, c)"
    by blast
  with validation_pass_restores_grad_mode
    [of "idle 0" "[(one_example, [0])]" "fresh (Plain small_classifier)"]
  have "\<not> t" by blast
  with r have "\<exists>test_loss accuracy.
      fst (validation_pass (idle 0) [(one_example, [0])] (fresh (Plain small_classifier)))
        = Inr (test_loss, False, accuracy)"
    by auto
  moreover from validation_pass_restores_grad_mode
    [of "idle 0" "[(one_example, [7])]" "fresh (Plain small_classifier)"]
  have "grad_enabled (snd (validation_pass (idle 0) [(one_example, [7])] (fresh (Plain small_classifier))))"
    by (simp add: fresh_def)
  ultimately show ?thesis using b by simp
qed

text \<open>
  Claim C9. The validation pass returns the session with the model it was given. In a
  training step the model changes only by the optimizer's update: a step that raises leaves
  it as it was, and a completed step leaves the update of the old model by the gradients.
\<close>

theorem validation_pass_keeps_parameters:
  "model (snd (validation_pass env testloader s)) = model s \<and>
   (case train_step env' batch so_far s' of
      (Inl e, s'') \<Rightarrow> model s'' = model s'
    | (Inr l, s'') \<Rightarrow>
        (\<exists>g. grads s'' = Some g \<and> model s'' = fst (opt_update env' (opt_state s') (model s') g)))"
proof -
  obtain r s1 where v: "validation_batches env testloader (0, False, 0) (s\<lparr>grad_enabled := False\<rparr>) = (r, s1)"
    by (cases "validation_batches env testloader (0, False, 0) (s\<lparr>grad_enabled := False\<rparr>)")
  then have p: "validation_pass env testloader s = (r, s1\<lparr>grad_enabled := grad_enabled s\<rparr>)"
    by (simp add: validation_pass_def no_grad_def)
  from validation_batches_frame [OF v] p
  have a: "model (snd (validation_pass env testloader s)) = model s"
    by simp
  obtain r2 s2 where t: "train_step env' batch so_far s' = (r2, s2)"
    by (cases "train_step env' batch so_far s'")
  have "case (r2, s2) of
      (Inl e, s'') \<Rightarrow> model s'' = model s'
    | (Inr l, s'') \<Rightarrow>
        (\<exists>g. grads s'' = Some g \<and> model s'' = fst (opt_update env' (opt_state s') (model s') g))"
  proof (cases r2)
    case (Inl e)
    with t train_step_error_model show ?thesis by simp
  next
    case (Inr l)
    with t have "train_step env' batch so_far s' = (Inr l, s2)" by simp
    from train_step_result [OF this] obtain g where
      "grads s2 = Some g" "(model s2, opt_state s2) = opt_update env' (opt_state s') (model s') g"
      by blast
    then have "grads s2 = Some g \<and> model s2 = fst (opt_update env' (opt_state s') (model s') g)"
      by (metis fst_conv)
    with Inr show ?thesis by auto
  qed
  with a t show ?thesis by simp
qed

theorem validation_pass_keeps_parameters_witness:
  "model (snd (validation_pass (idle 0) [(one_example, [0])] (fresh (Plain small_classifier))))
     = Plain small_classifier \<and>
   (\<exists>l s''. train_step toy (one_example, [0]) 0 stale = (Inr l, s'') \<and>
      grads s'' = Some [1] \<and> model s'' = map (nudge 0.03) small_sequential)"
proof -
  from small_train_step
  obtain s1 where t: "train_step toy (one_example, [0]) 0 stale
                        = (Inr (- (log_softmax_row [2, 1] ! 0)), s1)"
    by (cases "train_step toy (one_example, [0]) 0 stale") simp
  have g: "grads s1 = Some [1]"
    using train_step_result [OF t] by (auto simp: small_batch_gradient stale_fields)
  note keep = validation_pass_keeps_parameters [where env = "idle 0"
      and testloader = "[(one_example, [0])]" and s = "fresh (Plain small_classifier)"
      and env' = toy and batch = "(one_example, [0])" and so_far = 0 and s' = stale]
  from keep have "model (snd (validation_pass (idle 0) [(one_example, [0])] (fresh (Plain small_classifier))))
     = Plain small_classifier"
    by (simp add: fresh_def)
  moreover from keep t g have "model s1 = map (nudge 0.03) small_sequential"
    by (simp add: stale_fields toy_update)
  ultimately show ?thesis using t g by blast
qed

section \<open>Calling the model twice\<close>

lemma net_call_pure:
  assumes "\<forall>m. model s = WithDropout m \<longrightarrow> \<not> training s"
  shows "net_call env x s =
           (case forward (params_of (model s)) x of Inl e \<Rightarrow> Inl e
            | Inr out \<Rightarrow> Inr (out, grad_enabled s),
            log_call Forward s)"
proof (cases "model s")
  case (Plain m)
  then show ?thesis
    by (simp add: net_call_def params_of_def Let_def split: sum.splits)
next
  case (WithDropout m)
  with assms have "\<not> training s" by simp
  with WithDropout show ?thesis
    by (simp add: net_call_def params_of_def Let_def forward_dropout_eval log_call_def
        split: sum.splits)
qed

text \<open>
  Claim C4, amended. When the model has no dropout or is in evaluation mode, two calls in
  a row on the same input return the same output, which is the forward pass of the
  parameters on the input. (In training mode the dropout model also depends on the draws
  of the random generator.)
\<close>

theorem predict_twice_same:
  assumes "\<forall>m. model s = WithDropout m \<longrightarrow> \<not> training s"
  shows "fst (net_call env x (snd (net_call env x s))) = fst (net_call env x s) \<and>
         fst (net_call env x s) =
           (case forward (params_of (model s)) x of Inl e \<Rightarrow> Inl e
            | Inr out \<Rightarrow> Inr (out, grad_enabled s))"
proof -
  have "\<forall>m. model (log_call Forward s) = WithDropout m \<longrightarrow> \<not> training (log_call Forward s)"
    using assms by (simp add: log_call_def)
  from net_call_pure [OF this] net_call_pure [OF assms] show ?thesis
    by (simp add: log_call_def split: sum.splits)
qed

theorem predict_twice_same_witness:
  "model ((fresh (WithDropout small_classifier))\<lparr>training := False\<rparr>)
     = WithDropout small_classifier \<and>
   \<not> training ((fresh (WithDropout small_classifier))\<lparr>training := False\<rparr>) \<and>
   fst (net_call (idle 3) one_example
          (snd (net_call (idle 3) one_example ((fresh (WithDropout small_classifier))\<lparr>training := False\<rparr>))))
     = Inr ([log_softmax_row [2, 1]], True)"
proof -
  have h: "\<forall>m. model ((fresh (WithDropout small_classifier))\<lparr>training := False\<rparr>) = WithDropout m
       \<longrightarrow> \<not> training ((fresh (WithDropout small_classifier))\<lparr>training := False\<rparr>)"
    by simp
  show ?thesis
    using predict_twice_same [OF h, of "idle 3" one_example]
    by (simp add: params_of_def fresh_def small_forward)
qed

text \<open>
  Claim C4 as stated fails for the dropout model in training mode, the mode it is
  constructed in: with a generator that keeps the first three units it draws and drops the
  next three, two calls on the same input and parameters differ.
\<close>

theorem predict_twice_counterexample:
  "fst (net_call (idle 3) one_example
          (snd (net_call (idle 3) one_example (fresh (WithDropout small_classifier)))))
   \<noteq> fst (net_call (idle 3) one_example (fresh (WithDropout small_classifier)))"
proof -
  have a: "net_call (idle 3) one_example (fresh (WithDropout small_classifier))
             = (Inr ([log_softmax_row [125 / 32, 1]], True),
                log_call Forward (fresh (WithDropout small_classifier))\<lparr>rng_pos := 3\<rparr>)"
    by (simp add: net_call_def fresh_def idle_def small_dropout_kept Let_def)
  have b: "fst (net_call (idle 3) one_example
             (log_call Forward (fresh (WithDropout small_classifier))\<lparr>rng_pos := 3\<rparr>))
             = Inr ([log_softmax_row [0, 1]], True)"
    using small_dropout_dropped [of 3 0]
    by (simp add: net_call_def fresh_def idle_def log_call_def Let_def)
  have "log_softmax_row [125 / 32, 1] \<noteq> log_softmax_row [0, 1]"
    by (rule log_softmax_row_differ) simp
  with a b show ?thesis by simp
qed

section \<open>Dropout during validation\<close>

text \<open>
  Claim C5. The validation loop is run on the dropout model as it was constructed, in
  training mode, and never calls \<open>model.eval()\<close>: dropout is applied during validation.
  With a generator that drops every unit the pass draws three times and scores accuracy 0
  on a batch on which the model in evaluation mode scores 1.
\<close>

theorem validation_keeps_dropout_on:
  "training (fresh (WithDropout small_classifier)) \<and>
   (\<exists>l. validation_pass (idle 0) [(one_example, [0])] (fresh (WithDropout small_classifier))
          = (Inr (l, False, 0),
             (fresh (WithDropout small_classifier))\<lparr>rng_pos := 3, calls := [Forward, Loss]\<rparr>)) \<and>
   (\<exists>l. fst (validation_pass (idle 0) [(one_example, [0])]
                ((fresh (WithDropout small_classifier))\<lparr>training := False\<rparr>))
          = Inr (l, False, 1))"
proof -
  have d: "forward_dropout small_classifier True (\<lambda>i. False) 0 one_example
             = (Inr [log_softmax_row [0, 1]], 3)"
    using small_dropout_dropped [of 0 0] by simp
  have e: "forward_dropout small_classifier False (\<lambda>i. False) 0 one_example
             = (Inr [log_softmax_row [2, 1]], 0)"
    by (simp add: forward_dropout_eval small_forward)
  show ?thesis
    by (simp add: validation_pass_def no_grad_def validation_batch_def net_call_def fresh_def
        idle_def log_call_def Let_def d e nll_one accuracy_first accuracy_second)
qed


end
